theory Spec2Isabelle
  imports Complex_Main "HOL-Library.Sublist" "HOL-Library.Word"
begin

section \<open>Synthetic number-plate images: the model of \<open>gen2.py\<close>\<close>

text \<open>
  The development follows \<open>gen2.py\<close> function by function. Conventions:

  \<^item> Python floats (IEEE doubles) are idealised as \<open>real\<close>. The one place where the
    program relies on IEEE infinities, the division \<open>to_size / skewed_size\<close>, is modelled
    with an explicit type of division results.
  \<^item> A numpy array or matrix is the list of its rows; a column vector of shape \<open>(2,1)\<close>
    is \<open>[[x], [y]]\<close>.
  \<^item> Randomness is explicit: every function that draws random numbers takes the values
    drawn as an argument.
  \<^item> The operations of OpenCV and the results of the file-system dependent helpers are
    parameters of the model.
\<close>

subsection \<open>Arrays and matrices\<close>

type_synonym matrix = "real list list"

text \<open>The product of two \<open>numpy.matrix\<close> values: rows of the left factor against columns
  of the right one. The shapes agree at every call site of the program.\<close>

definition mat_mul :: "matrix \<Rightarrow> matrix \<Rightarrow> matrix" where
  "mat_mul A B = map (\<lambda>row. map (\<lambda>col. sum_list (map2 (*) row col)) (transpose B)) A"

text \<open>Elementwise operations of numpy on arrays of one shape.\<close>

definition arr_map :: "('a \<Rightarrow> 'b) \<Rightarrow> 'a list list \<Rightarrow> 'b list list" where
  "arr_map f A = map (map f) A"

definition arr_map2 :: "('a \<Rightarrow> 'b \<Rightarrow> 'c) \<Rightarrow> 'a list list \<Rightarrow> 'b list list \<Rightarrow> 'c list list" where
  "arr_map2 f A B = map2 (map2 f) A B"

text \<open>\<open>numpy.any\<close> of a boolean array obtained by comparing each element.\<close>

definition arr_any :: "('a \<Rightarrow> bool) \<Rightarrow> 'a list list \<Rightarrow> bool" where
  "arr_any p A = list_ex (list_ex p) A"

fun maximum :: "real list \<Rightarrow> real" where
  "maximum [] = 0"
| "maximum (x # xs) = fold max xs x"

fun minimum :: "real list \<Rightarrow> real" where
  "minimum [] = 0"
| "minimum (x # xs) = fold min xs x"

text \<open>\<open>numpy.max(A, axis=1)\<close> and \<open>numpy.min(A, axis=1)\<close> of a matrix: the column of the
  row maxima (minima). The rows are never empty in the program.\<close>

definition max_axis1 :: "matrix \<Rightarrow> matrix" where
  "max_axis1 A = map (\<lambda>row. [maximum row]) A"

definition min_axis1 :: "matrix \<Rightarrow> matrix" where
  "min_axis1 A = map (\<lambda>row. [minimum row]) A"

text \<open>The slice \<open>A[:2, :2]\<close>.\<close>

definition block2 :: "matrix \<Rightarrow> matrix" where
  "block2 A = map (take 2) (take 2 A)"

text \<open>\<open>numpy.hstack([A, B])\<close> of two matrices with the same number of rows.\<close>

definition hstack2 :: "matrix \<Rightarrow> matrix \<Rightarrow> matrix" where
  "hstack2 A B = map2 (@) A B"

text \<open>\<open>A.shape\<close> of a two-dimensional array: (rows, columns).\<close>

definition shape :: "'a list list \<Rightarrow> nat \<times> nat" where
  "shape A = (length A, case A of [] \<Rightarrow> 0 | row # _ \<Rightarrow> length row)"

subsection \<open>Division with IEEE infinities\<close>

text \<open>The result of a floating-point division: numpy does not raise on a zero divisor,
  it yields an infinity or NaN. The divisor of the program is a difference \<open>max - min\<close>,
  hence never a negative zero.\<close>

datatype npfloat = Finite real | PosInf | NegInf | NaN

definition np_divide :: "real \<Rightarrow> real \<Rightarrow> npfloat" where
  "np_divide a b =
     (if b \<noteq> 0 then Finite (a / b)
      else if 0 < a then PosInf else if a < 0 then NegInf else NaN)"

fun np_min2 :: "npfloat \<Rightarrow> npfloat \<Rightarrow> npfloat" where
  "np_min2 NaN _ = NaN"
| "np_min2 _ NaN = NaN"
| "np_min2 NegInf _ = NegInf"
| "np_min2 _ NegInf = NegInf"
| "np_min2 PosInf y = y"
| "np_min2 x PosInf = x"
| "np_min2 (Finite x) (Finite y) = Finite (min x y)"

text \<open>\<open>numpy.min\<close> over all elements of an array; NaN propagates.\<close>

definition np_min :: "npfloat list list \<Rightarrow> npfloat" where
  "np_min A = (case concat A of [] \<Rightarrow> NaN | x # xs \<Rightarrow> fold np_min2 xs x)"

subsection \<open>\<open>euler_to_mat\<close>\<close>

definition euler_to_mat :: "real \<Rightarrow> real \<Rightarrow> real \<Rightarrow> matrix" where
  "euler_to_mat yaw pitch roll =
     (let c = cos yaw; s = sin yaw;
          M = [[c, 0, s],
               [0, 1, 0],
               [- s, 0, c]];
          c = cos pitch; s = sin pitch;
          M = mat_mul [[1, 0, 0],
                       [0, c, - s],
                       [0, s, c]] M;
          c = cos roll; s = sin roll;
          M = mat_mul [[c, - s, 0],
                       [s, c, 0],
                       [0, 0, 1]] M
      in M)"

subsection \<open>The rotations the specification names\<close>

text \<open>The specification describes the result of \<open>euler_to_mat\<close> through the standard
  right-handed rotations about the coordinate axes. These are defined here independently
  of the code, by Rodrigues' formula for the right-handed rotation by the angle \<open>t\<close> about
  a unit axis \<open>k\<close>: \<open>I + sin t \<cdot> K + (1 - cos t) \<cdot> K\<^sup>2\<close>, where \<open>K\<close> is the matrix of the
  cross product with \<open>k\<close>.\<close>

definition identity3 :: matrix where
  "identity3 = [[1, 0, 0], [0, 1, 0], [0, 0, 1]]"

definition cross_matrix :: "real \<times> real \<times> real \<Rightarrow> matrix" where
  "cross_matrix k = (case k of (x, y, z) \<Rightarrow>
     [[0, - z, y],
      [z, 0, - x],
      [- y, x, 0]])"

definition axis_rotation :: "real \<times> real \<times> real \<Rightarrow> real \<Rightarrow> matrix" where
  "axis_rotation k t =
     (let K = cross_matrix k
      in arr_map2 (+) identity3
           (arr_map2 (+) (arr_map (\<lambda>x. sin t * x) K)
                         (arr_map (\<lambda>x. (1 - cos t) * x) (mat_mul K K))))"

definition Rx :: "real \<Rightarrow> matrix" where
  "Rx t = axis_rotation (1, 0, 0) t"

definition Ry :: "real \<Rightarrow> matrix" where
  "Ry t = axis_rotation (0, 1, 0) t"

definition Rz :: "real \<Rightarrow> matrix" where
  "Rz t = axis_rotation (0, 0, 1) t"

text \<open>The determinant of a 3\<times>3 matrix, by expansion along the first row.\<close>

fun det3 :: "matrix \<Rightarrow> real" where
  "det3 [[a, b, c], [d, e, f], [g, h, i]] =
     a * (e * i - f * h) - b * (d * i - f * g) + c * (d * h - e * g)"
| "det3 _ = 0"

subsection \<open>\<open>make_affine_transform\<close>\<close>

text \<open>The random numbers one call draws: four results of \<open>random.random()\<close>, consumed
  by the four calls of \<open>random.uniform\<close>, and the two entries of
  \<open>numpy.random.random((2,1))\<close>. Each lies in the half-open interval from 0 to 1.\<close>

record draws =
  u_scale :: real
  u_roll :: real
  u_pitch :: real
  u_yaw :: real
  u_tx :: real
  u_ty :: real

definition unit_draws :: "draws \<Rightarrow> bool" where
  "unit_draws rnd =
     list_all (\<lambda>u. 0 \<le> u \<and> u < 1)
       [u_scale rnd, u_roll rnd, u_pitch rnd, u_yaw rnd, u_tx rnd, u_ty rnd]"

text \<open>\<open>random.uniform(a, b)\<close> is \<open>a + (b - a) * random()\<close> in the standard library.\<close>

definition uniform :: "real \<Rightarrow> real \<Rightarrow> real \<Rightarrow> real" where
  "uniform a b u = a + (b - a) * u"

text \<open>The scale as sampled, before it is rescaled to fit the canvas.\<close>

definition sampled_scale :: "real \<Rightarrow> real \<Rightarrow> real \<Rightarrow> real \<Rightarrow> real" where
  "sampled_scale min_scale max_scale scale_variation u =
     uniform ((min_scale + max_scale) * 0.5 - (max_scale - min_scale) * 0.5 * scale_variation)
             ((min_scale + max_scale) * 0.5 + (max_scale - min_scale) * 0.5 * scale_variation) u"

definition sampled_roll :: "real \<Rightarrow> real \<Rightarrow> real" where
  "sampled_roll rotation_variation u = uniform (- 0.5) 0.5 u * rotation_variation"

definition sampled_pitch :: "real \<Rightarrow> real \<Rightarrow> real" where
  "sampled_pitch rotation_variation u = uniform (- 0.4) 0.4 u * rotation_variation"

definition sampled_yaw :: "real \<Rightarrow> real \<Rightarrow> real" where
  "sampled_yaw rotation_variation u = uniform (- 1.2) 1.2 u * rotation_variation"

text \<open>The bounding box of the skewed input image, a column \<open>[[width], [height]]\<close>.\<close>

definition skewed_size :: "nat \<times> nat \<Rightarrow> real \<Rightarrow> real \<Rightarrow> real \<Rightarrow> matrix" where
  "skewed_size from_shape yaw pitch roll =
     (let M = block2 (euler_to_mat yaw pitch roll);
          h = real (fst from_shape); w = real (snd from_shape);
          corners = arr_map (\<lambda>x. x * 0.5) [[- w, w, - w, w],
                                            [- h, - h, h, h]]
      in arr_map2 (-) (max_axis1 (mat_mul M corners)) (min_axis1 (mat_mul M corners)))"

text \<open>One entry of the translation fraction: the draw, centred and scaled by the
  variation, then sent through \<open>((2 t) ** 5) / 2\<close>.\<close>

definition trans_fraction :: "real \<Rightarrow> real \<Rightarrow> real" where
  "trans_fraction translation_variation u =
     ((2.0 * ((u - 0.5) * translation_variation)) ^ 5) / 2.0"

text \<open>The result is the pair of the 2\<times>3 matrix and the flag. The matrix is \<open>None\<close> when
  the canvas-fit factor \<open>numpy.min(to_size / skewed_size)\<close> is an infinity or NaN: every
  entry of the matrix the program returns is then an infinity or NaN as well. The flag
  does not depend on that factor.\<close>

definition make_affine_transform ::
  "nat \<times> nat \<Rightarrow> nat \<times> nat \<Rightarrow> real \<Rightarrow> real \<Rightarrow> real \<Rightarrow> real \<Rightarrow> real \<Rightarrow> draws
     \<Rightarrow> matrix option \<times> bool" where
  "make_affine_transform from_shape to_shape min_scale max_scale
       scale_variation rotation_variation translation_variation rnd =
     (let out_of_bounds = False;
          from_size = transpose [[real (snd from_shape), real (fst from_shape)]];
          to_size = transpose [[real (snd to_shape), real (fst to_shape)]];
          scale = sampled_scale min_scale max_scale scale_variation (u_scale rnd);
          out_of_bounds = (if scale > max_scale \<or> scale < min_scale then True else out_of_bounds);
          roll = sampled_roll rotation_variation (u_roll rnd);
          pitch = sampled_pitch rotation_variation (u_pitch rnd);
          yaw = sampled_yaw rotation_variation (u_yaw rnd);
          skewed = skewed_size from_shape yaw pitch roll;
          scale = (case np_min (arr_map2 np_divide to_size skewed) of
                     Finite r \<Rightarrow> Some (scale * r)
                   | _ \<Rightarrow> None);
          trans = arr_map (trans_fraction translation_variation) [[u_tx rnd], [u_ty rnd]];
          out_of_bounds = (if arr_any (\<lambda>t. t < - 0.80) trans \<or> arr_any (\<lambda>t. t > 0.80) trans
                           then True else out_of_bounds)
      in case scale of
           None \<Rightarrow> (None, out_of_bounds)
         | Some scale \<Rightarrow>
            (let trans = arr_map2 (*) (arr_map2 (-) to_size (arr_map (\<lambda>x. x * scale) skewed))
                           trans;
                 center_to = arr_map (\<lambda>x. x / 2) to_size;
                 center_from = arr_map (\<lambda>x. x / 2) from_size;
                 M = block2 (euler_to_mat yaw pitch roll);
                 M = arr_map (\<lambda>x. x * scale) M;
                 M = hstack2 M (arr_map2 (-) (arr_map2 (+) trans center_to)
                                             (mat_mul M center_from))
             in (Some M, out_of_bounds)))"

text \<open>The axis-aligned bounding box (width, height) of the images of the four corners
  \<open>(0,0)\<close>, \<open>(w,0)\<close>, \<open>(0,h)\<close>, \<open>(w,h)\<close> of the source shape under a 2\<times>3 affine transform,
  applied to homogeneous coordinates.\<close>

definition bounding_box :: "matrix \<Rightarrow> nat \<times> nat \<Rightarrow> real \<times> real" where
  "bounding_box M from_shape =
     (let h = real (fst from_shape); w = real (snd from_shape);
          P = mat_mul M [[0, w, 0, w],
                         [0, 0, h, h],
                         [1, 1, 1, 1]]
      in (maximum (P ! 0) - minimum (P ! 0), maximum (P ! 1) - minimum (P ! 1)))"

subsection \<open>\<open>generate_code\<close>\<close>

datatype error = IndexError | KeyError

text \<open>The dictionary \<open>banned_combinations\<close>, keyed by \<open>None\<close> and \<open>"se"\<close>. Two pairs of
  adjacent literals of the source have no comma between them, and Python concatenates
  adjacent string literals: the list holds \<open>"LSDLUS"\<close> and \<open>"NRPNSF"\<close>.\<close>

definition banned_se :: "string list" where
  "banned_se =
     [''APA'', ''ARG'', ''ASS'', ''BAJ'', ''BSS'', ''CUC'', ''CUK'', ''DUM'', ''ETA'', ''ETT'',
      ''FAG'', ''FAN'', ''FEG'', ''FEL'', ''FEM'', ''FES'', ''FET'', ''FNL'', ''FUC'', ''FUK'',
      ''FUL'', ''GAM'', ''GAY'', ''GEJ'', ''GEY'', ''GHB'', ''GUD'', ''GYN'', ''HAT'', ''HBT'',
      ''HKH'', ''HOR'', ''HOT'', ''KGB'', ''KKK'', ''KUC'', ''KUF'', ''KUG'', ''KUK'', ''KYK'',
      ''LAM'', ''LAT'', ''LEM'', ''LOJ'', ''LSDLUS'', ''MAD'', ''MAO'', ''MEN'', ''MES'', ''MLB'',
      ''MUS'', ''NAZ'', ''NRPNSF'', ''NYP'', ''OND'', ''OOO'', ''ORM'', ''PAJ'', ''PKK'', ''PLO'',
      ''PMS'', ''PUB'', ''RAP'', ''RAS'', ''ROM'', ''RPS'', ''RUS'', ''SEG'', ''SEX'', ''SJU'',
      ''SOS'', ''SPY'', ''SUG'', ''SUP'', ''SUR'', ''TBC'', ''TOA'', ''TOK'', ''TRE'', ''TYP'',
      ''UFO'', ''USA'', ''WAM'', ''WAR'', ''WWW'', ''XTC'', ''XTZ'', ''XXL'', ''XXX'', ''ZEX'',
      ''ZOG'', ''ZPY'', ''ZUG'', ''ZUP'', ''ZOO'']"

definition banned_combinations :: "string option \<rightharpoonup> string list" where
  "banned_combinations = [None \<mapsto> [], Some ''se'' \<mapsto> banned_se]"

text \<open>A computation that draws from the random generator: it takes the list of the
  draws still to come and yields the value returned or the exception raised, with the
  draws left over; \<open>None\<close> when the draws are used up before it ends.\<close>

type_synonym 'a drawing = "nat list \<Rightarrow> ((error + 'a) \<times> nat list) option"

text \<open>\<open>random.choice(seq)\<close>: IndexError on an empty sequence, raised before anything is
  drawn; otherwise one draw is consumed and the element at a random index below the
  length is returned. The draw \<open>r\<close> is the generator's output, reduced to the index range.\<close>

definition random_choice :: "'a list \<Rightarrow> 'a drawing" where
  "random_choice seq rs =
     (if seq = [] then Some (Inl IndexError, rs)
      else (case rs of
              [] \<Rightarrow> None
            | r # rest \<Rightarrow> Some (Inr (seq ! (r mod length seq)), rest)))"

text \<open>Evaluation in sequence: an exception of the first computation ends the whole, with
  the draws consumed so far.\<close>

definition then_draw :: "'a drawing \<Rightarrow> ('a \<Rightarrow> 'b drawing) \<Rightarrow> 'b drawing" where
  "then_draw m f rs =
     (case m rs of
        None \<Rightarrow> None
      | Some (Inl e, rest) \<Rightarrow> Some (Inl e, rest)
      | Some (Inr x, rest) \<Rightarrow> f x rest)"

text \<open>The body of the loop: the six choices, evaluated in the order of the arguments of
  \<open>format\<close>. The alphabets \<open>common.LETTERS\<close> and \<open>common.DIGITS\<close> are strings defined in
  another module; they are parameters here.\<close>

definition draw_code :: "string \<Rightarrow> string \<Rightarrow> string drawing" where
  "draw_code LETTERS DIGITS =
     then_draw (random_choice LETTERS) (\<lambda>l1.
     then_draw (random_choice LETTERS) (\<lambda>l2.
     then_draw (random_choice LETTERS) (\<lambda>l3.
     then_draw (random_choice DIGITS) (\<lambda>d1.
     then_draw (random_choice DIGITS) (\<lambda>d2.
     then_draw (random_choice DIGITS) (\<lambda>d3.
       (\<lambda>rs. Some (Inr ([l1, l2, l3] @ '' '' @ [d1, d2, d3]), rs))))))))"

text \<open>The condition of the loop,
  \<open>not code or any(bad in code for bad in banned_combinations[country])\<close>.
  The variable \<open>code\<close> is \<open>None\<close> or a string; \<open>not code\<close> holds of \<open>None\<close> and of the empty
  string, and then the dictionary is not consulted. \<open>bad in code\<close> is the substring test.\<close>

definition loop_condition :: "string option \<Rightarrow> string option \<Rightarrow> error + bool" where
  "loop_condition country code =
     (case code of
        None \<Rightarrow> Inr True
      | Some c \<Rightarrow>
          if c = [] then Inr True
          else (case banned_combinations country of
                  None \<Rightarrow> Inl KeyError
                | Some banned \<Rightarrow> Inr (list_ex (\<lambda>bad. sublist bad c) banned)))"

text \<open>A code that has been drawn took six draws.\<close>

lemma then_draw_Inr:
  assumes "then_draw m f rs = Some (Inr y, rest)"
  shows "\<exists>x mid. m rs = Some (Inr x, mid) \<and> f x mid = Some (Inr y, rest)"
  using assms
  by (auto simp add: then_draw_def split: option.splits sum.splits prod.splits)

lemma random_choice_Inr:
  assumes "random_choice seq rs = Some (Inr x, rest)"
  shows "seq \<noteq> [] \<and> (\<exists>r. rs = r # rest \<and> x = seq ! (r mod length seq))"
  using assms
  by (auto simp add: random_choice_def split: if_splits list.splits)

lemma draw_code_Inr:
  assumes "draw_code LETTERS DIGITS rs = Some (Inr c, rest)"
  shows "LETTERS \<noteq> [] \<and> DIGITS \<noteq> [] \<and>
         (\<exists>r1 r2 r3 r4 r5 r6. rs = r1 # r2 # r3 # r4 # r5 # r6 # rest \<and>
            c = [LETTERS ! (r1 mod length LETTERS), LETTERS ! (r2 mod length LETTERS),
                 LETTERS ! (r3 mod length LETTERS)] @ '' '' @
                [DIGITS ! (r4 mod length DIGITS), DIGITS ! (r5 mod length DIGITS),
                 DIGITS ! (r6 mod length DIGITS)])"
proof -
  from assms obtain l1 s1 where 1: "random_choice LETTERS rs = Some (Inr l1, s1)"
    and t1: "then_draw (random_choice LETTERS) (\<lambda>l2.
     then_draw (random_choice LETTERS) (\<lambda>l3.
     then_draw (random_choice DIGITS) (\<lambda>d1.
     then_draw (random_choice DIGITS) (\<lambda>d2.
     then_draw (random_choice DIGITS) (\<lambda>d3.
       (\<lambda>rs. Some (Inr ([l1, l2, l3] @ '' '' @ [d1, d2, d3]), rs))))))) s1 = Some (Inr c, rest)"
    unfolding draw_code_def by (blast dest: then_draw_Inr)
  from t1 obtain l2 s2 where 2: "random_choice LETTERS s1 = Some (Inr l2, s2)"
    and t2: "then_draw (random_choice LETTERS) (\<lambda>l3.
     then_draw (random_choice DIGITS) (\<lambda>d1.
     then_draw (random_choice DIGITS) (\<lambda>d2.
     then_draw (random_choice DIGITS) (\<lambda>d3.
       (\<lambda>rs. Some (Inr ([l1, l2, l3] @ '' '' @ [d1, d2, d3]), rs)))))) s2 = Some (Inr c, rest)"
    by (blast dest: then_draw_Inr)
  from t2 obtain l3 s3 where 3: "random_choice LETTERS s2 = Some (Inr l3, s3)"
    and t3: "then_draw (random_choice DIGITS) (\<lambda>d1.
     then_draw (random_choice DIGITS) (\<lambda>d2.
     then_draw (random_choice DIGITS) (\<lambda>d3.
       (\<lambda>rs. Some (Inr ([l1, l2, l3] @ '' '' @ [d1, d2, d3]), rs))))) s3 = Some (Inr c, rest)"
    by (blast dest: then_draw_Inr)
  from t3 obtain d1 s4 where 4: "random_choice DIGITS s3 = Some (Inr d1, s4)"
    and t4: "then_draw (random_choice DIGITS) (\<lambda>d2.
     then_draw (random_choice DIGITS) (\<lambda>d3.
       (\<lambda>rs. Some (Inr ([l1, l2, l3] @ '' '' @ [d1, d2, d3]), rs)))) s4 = Some (Inr c, rest)"
    by (blast dest: then_draw_Inr)
  from t4 obtain d2 s5 where 5: "random_choice DIGITS s4 = Some (Inr d2, s5)"
    and t5: "then_draw (random_choice DIGITS) (\<lambda>d3.
       (\<lambda>rs. Some (Inr ([l1, l2, l3] @ '' '' @ [d1, d2, d3]), rs))) s5 = Some (Inr c, rest)"
    by (blast dest: then_draw_Inr)
  from t5 obtain d3 s6 where 6: "random_choice DIGITS s5 = Some (Inr d3, s6)"
    and t6: "Some (Inr ([l1, l2, l3] @ '' '' @ [d1, d2, d3]), s6) = Some (Inr c, rest)"
    by (blast dest: then_draw_Inr)
  from t6 have c: "c = [l1, l2, l3] @ '' '' @ [d1, d2, d3]" and s6: "s6 = rest"
    by simp_all
  from random_choice_Inr [OF 1] random_choice_Inr [OF 2] random_choice_Inr [OF 3]
    random_choice_Inr [OF 4] random_choice_Inr [OF 5] random_choice_Inr [OF 6] c s6
  show ?thesis by auto
qed

text \<open>The loop, started with the current value of \<open>code\<close> and the list of the draws still
  to come. The result is \<open>None\<close> when the draws are used up before the loop ends;
  otherwise it is the value returned or the exception raised, with the draws left over.\<close>

function generate_code_loop ::
  "string \<Rightarrow> string \<Rightarrow> string option \<Rightarrow> string option \<Rightarrow> string option drawing" where
  "generate_code_loop LETTERS DIGITS country code rs =
     (case loop_condition country code of
        Inl e \<Rightarrow> Some (Inl e, rs)
      | Inr False \<Rightarrow> Some (Inr code, rs)
      | Inr True \<Rightarrow>
          (case draw_code LETTERS DIGITS rs of
             None \<Rightarrow> None
           | Some (Inl e, rest) \<Rightarrow> Some (Inl e, rest)
           | Some (Inr c, rest) \<Rightarrow> generate_code_loop LETTERS DIGITS country (Some c) rest))"
  by pat_completeness auto
termination
  by (relation "measure (\<lambda>(LETTERS, DIGITS, country, code, rs). length rs)")
     (auto dest!: draw_code_Inr)

definition generate_code :: "string \<Rightarrow> string \<Rightarrow> string option \<Rightarrow> string option drawing" where
  "generate_code LETTERS DIGITS country rs = generate_code_loop LETTERS DIGITS country None rs"

text \<open>The format of a plate code: three characters of the first alphabet, a space, three
  characters of the second.\<close>

definition plate_format :: "string \<Rightarrow> string \<Rightarrow> string \<Rightarrow> bool" where
  "plate_format LETTERS DIGITS code =
     (length code = 7 \<and>
      list_all (\<lambda>c. c \<in> set LETTERS) (take 3 code) \<and>
      code ! 3 = CHR '' '' \<and>
      list_all (\<lambda>c. c \<in> set DIGITS) (drop 4 code))"

subsection \<open>Compositing and \<open>generate_im\<close>\<close>

type_synonym gray_image = "8 word list list"

definition OUTPUT_SHAPE :: "nat \<times> nat" where
  "OUTPUT_SHAPE = (64, 128)"

text \<open>The conversion numpy applies to an array of unsigned bytes that meets an array of
  floats in an arithmetic operation.\<close>

definition as_float :: "gray_image \<Rightarrow> matrix" where
  "as_float im = arr_map (\<lambda>p. real (unat p)) im"

text \<open>The composite before the resize,
  \<open>plate * plate_mask + bg * (1.0 - plate_mask)\<close>, on arrays of one shape.\<close>

definition composite :: "gray_image \<Rightarrow> matrix \<Rightarrow> gray_image \<Rightarrow> matrix" where
  "composite plate plate_mask bg =
     arr_map2 (+) (arr_map2 (*) (as_float plate) plate_mask)
                  (arr_map2 (*) (as_float bg) (arr_map (\<lambda>m. 1.0 - m) plate_mask))"

text \<open>The operations of OpenCV that \<open>generate_im\<close> calls: \<open>warpAffine\<close> on an image of
  bytes and on a mask of floats, and \<open>resize\<close>. The size argument is (width, height).\<close>

record cv2 =
  warpAffine_u8 :: "gray_image \<Rightarrow> matrix option \<Rightarrow> nat \<times> nat \<Rightarrow> gray_image"
  warpAffine_f :: "matrix \<Rightarrow> matrix option \<Rightarrow> nat \<times> nat \<Rightarrow> matrix"
  resize :: "matrix \<Rightarrow> nat \<times> nat \<Rightarrow> matrix"

text \<open>\<open>generate_im\<close>. The calls \<open>generate_bg(num_bg_images)\<close> and
  \<open>generate_plate(plate_data)\<close> read files and render text; their outcomes are arguments,
  \<open>None\<close> standing for a call that raises or does not return.\<close>

definition generate_im ::
  "cv2 \<Rightarrow> gray_image option \<Rightarrow> (gray_image \<times> string) option \<Rightarrow> draws
     \<Rightarrow> (matrix \<times> string \<times> bool) option" where
  "generate_im cv bg_result plate_result rnd =
     (case bg_result of
        None \<Rightarrow> None
      | Some bg \<Rightarrow>
     (case plate_result of
        None \<Rightarrow> None
      | Some (plate, code) \<Rightarrow>
         (let plate_mask = arr_map (\<lambda>_. 1) plate;
              (M, out_of_bounds) =
                 make_affine_transform (fst (shape plate), snd (shape plate)) (shape bg)
                   0.6 1.1 1.2 0.9 1.2 rnd;
              plate = warpAffine_u8 cv plate M (snd (shape bg), fst (shape bg));
              plate_mask = warpAffine_f cv plate_mask M (snd (shape bg), fst (shape bg));
              out = composite plate plate_mask bg;
              out = arr_map (\<lambda>x. x / 255) (resize cv out (snd OUTPUT_SHAPE, fst OUTPUT_SHAPE))
          in Some (out, code, \<not> out_of_bounds))))"

section \<open>Properties\<close>

subsection \<open>Matrix products of fixed shape\<close>

lemma transpose3:
  "transpose [[a, b, c], [d, e, f], [g, h, i]] = [[a, d, g], [b, e, h], [c, f, i]]"
  by (simp add: transpose.simps)

lemma mat_mul3:
  "mat_mul [[a, b, c], [d, e, f], [g, h, i]] [[a', b', c'], [d', e', f'], [g', h', i']] =
     [[a * a' + b * d' + c * g', a * b' + b * e' + c * h', a * c' + b * f' + c * i'],
      [d * a' + e * d' + f * g', d * b' + e * e' + f * h', d * c' + e * f' + f * i'],
      [g * a' + h * d' + i * g', g * b' + h * e' + i * h', g * c' + h * f' + i * i']]"
  by (simp add: mat_mul_def transpose3)

subsection \<open>The rotation matrix\<close>

text \<open>The rotations defined by Rodrigues' formula have the familiar entries.\<close>

lemma Rx_entries: "Rx t = [[1, 0, 0], [0, cos t, - sin t], [0, sin t, cos t]]"
  by (simp add: Rx_def axis_rotation_def cross_matrix_def arr_map_def arr_map2_def
      identity3_def mat_mul3)

lemma Ry_entries: "Ry t = [[cos t, 0, sin t], [0, 1, 0], [- sin t, 0, cos t]]"
  by (simp add: Ry_def axis_rotation_def cross_matrix_def arr_map_def arr_map2_def
      identity3_def mat_mul3)

lemma Rz_entries: "Rz t = [[cos t, - sin t, 0], [sin t, cos t, 0], [0, 0, 1]]"
  by (simp add: Rz_def axis_rotation_def cross_matrix_def arr_map_def arr_map2_def
      identity3_def mat_mul3)

lemma euler_to_mat_entries:
  "euler_to_mat yaw pitch roll =
    [[cos roll * cos yaw - sin roll * (sin pitch * sin yaw), - (sin roll * cos pitch),
      cos roll * sin yaw + sin roll * (sin pitch * cos yaw)],
     [sin roll * cos yaw + cos roll * (sin pitch * sin yaw), cos roll * cos pitch,
      sin roll * sin yaw - cos roll * (sin pitch * cos yaw)],
     [- (cos pitch * sin yaw), sin pitch, cos pitch * cos yaw]]"
  by (simp add: euler_to_mat_def Let_def mat_mul3 algebra_simps)

text \<open>
  Claim C3. For every yaw, pitch and roll, \<open>euler_to_mat\<close> returns the matrix product
  \<open>Rz(roll) \<cdot> Rx(pitch) \<cdot> Ry(yaw)\<close> of the standard right-handed rotations about the Z, X
  and Y axes: yaw innermost, then pitch, roll outermost.
\<close>

theorem euler_to_mat_is_Rz_Rx_Ry:
  "euler_to_mat yaw pitch roll = mat_mul (Rz roll) (mat_mul (Rx pitch) (Ry yaw))"
  by (simp add: euler_to_mat_def Let_def Rx_entries Ry_entries Rz_entries)

text \<open>
  Claim C4. For every angle triple the matrix \<open>M\<close> returned by \<open>euler_to_mat\<close> is
  orthogonal, that is \<open>M\<^sup>T \<cdot> M\<close> is the identity matrix, and its determinant is 1.
\<close>

theorem euler_to_mat_orthogonal_det1:
  "mat_mul (transpose (euler_to_mat yaw pitch roll)) (euler_to_mat yaw pitch roll) = identity3
   \<and> det3 (euler_to_mat yaw pitch roll) = 1"
proof -
  have y: "(sin yaw)\<^sup>2 + (cos yaw)\<^sup>2 = 1" by simp
  have p: "(sin pitch)\<^sup>2 + (cos pitch)\<^sup>2 = 1" by simp
  have r: "(sin roll)\<^sup>2 + (cos roll)\<^sup>2 = 1" by simp
  have orth: "mat_mul (transpose (euler_to_mat yaw pitch roll)) (euler_to_mat yaw pitch roll)
                = identity3"
    unfolding euler_to_mat_entries transpose3 mat_mul3 identity3_def
    using y p r
    apply (intro list.inject[THEN iffD2] conjI refl)
            apply algebra+
    done
  have det: "det3 (euler_to_mat yaw pitch roll) = 1"
    unfolding euler_to_mat_entries det3.simps
    using y p r by algebra
  from orth det show ?thesis by simp
qed

subsection \<open>The out-of-bounds flag\<close>

text \<open>The flag as a function of the sampled scale and of the two translation
  fractions: the four comparisons of the source.\<close>

lemma out_of_bounds_flag:
  "snd (make_affine_transform from_shape to_shape min_scale max_scale sv rv tv rnd) =
     (sampled_scale min_scale max_scale sv (u_scale rnd) > max_scale
      \<or> sampled_scale min_scale max_scale sv (u_scale rnd) < min_scale
      \<or> trans_fraction tv (u_tx rnd) < - 0.80 \<or> trans_fraction tv (u_ty rnd) < - 0.80
      \<or> trans_fraction tv (u_tx rnd) > 0.80 \<or> trans_fraction tv (u_ty rnd) > 0.80)"
  by (auto simp add: make_affine_transform_def Let_def arr_map_def arr_any_def
      split: option.splits npfloat.splits)

lemma fifth_power_half:
  fixes x :: real
  assumes "\<bar>x\<bar> \<le> 1"
  shows "\<bar>x ^ 5 / 2\<bar> \<le> 1 / 2"
proof -
  have "\<bar>x ^ 5\<bar> = \<bar>x\<bar> ^ 5"
    by (rule power_abs)
  also have "\<dots> \<le> 1"
    using assms by (simp add: power_le_one)
  finally show ?thesis by simp
qed

lemma trans_fraction_bound:
  assumes "\<bar>tv\<bar> \<le> 1" "0 \<le> u" "u < 1"
  shows "\<bar>trans_fraction tv u\<bar> \<le> 1 / 2"
proof -
  define x where "x = (2 * u - 1) * tv"
  have "\<bar>x\<bar> = \<bar>2 * u - 1\<bar> * \<bar>tv\<bar>"
    unfolding x_def by (simp only: abs_mult)
  also have "\<dots> \<le> 1 * 1"
    using assms by (intro mult_mono) auto
  finally have b: "\<bar>x\<bar> \<le> 1" by simp
  have "2 * ((u - 1 / 2) * tv) = x"
    by (simp add: x_def algebra_simps)
  then have "trans_fraction tv u = x ^ 5 / 2"
    by (simp only: trans_fraction_def) simp
  with fifth_power_half [OF b] show ?thesis by simp
qed

lemma trans_fraction_unit_draws:
  assumes "\<bar>tv\<bar> \<le> 1" "unit_draws rnd"
  shows "\<bar>trans_fraction tv (u_tx rnd)\<bar> \<le> 1 / 2 \<and> \<bar>trans_fraction tv (u_ty rnd)\<bar> \<le> 1 / 2"
proof -
  from assms(2) have "0 \<le> u_tx rnd" "u_tx rnd < 1" "0 \<le> u_ty rnd" "u_ty rnd < 1"
    by (simp_all add: unit_draws_def)
  then show ?thesis
    by (intro conjI trans_fraction_bound assms(1))
qed

lemma trans_fraction_driver_exceeds: "0.80 < trans_fraction 1.2 0.99"
  by (simp add: trans_fraction_def power_divide)

text \<open>
  Claim C2. \<open>make_affine_transform\<close> returns \<open>out_of_bounds = true\<close> if and only if the
  sampled scale lies strictly outside the closed interval from \<open>min_scale\<close> to
  \<open>max_scale\<close>, or the translation fraction after the transform \<open>t' = (2t)\<^sup>5 / 2\<close> has
  magnitude strictly greater than 0.80 in some axis. In particular a scale equal to
  \<open>max_scale\<close> (or to \<open>min_scale\<close>) is not flagged: the boundary is inclusive.
\<close>

theorem out_of_bounds_iff:
  "(snd (make_affine_transform from_shape to_shape min_scale max_scale sv rv tv rnd) \<longleftrightarrow>
      sampled_scale min_scale max_scale sv (u_scale rnd) \<notin> {min_scale .. max_scale}
      \<or> 0.80 < \<bar>trans_fraction tv (u_tx rnd)\<bar>
      \<or> 0.80 < \<bar>trans_fraction tv (u_ty rnd)\<bar>)
   \<and> (min_scale \<le> max_scale
        \<and> (sampled_scale min_scale max_scale sv (u_scale rnd) = max_scale
             \<or> sampled_scale min_scale max_scale sv (u_scale rnd) = min_scale)
        \<and> \<bar>trans_fraction tv (u_tx rnd)\<bar> \<le> 0.80 \<and> \<bar>trans_fraction tv (u_ty rnd)\<bar> \<le> 0.80
       \<longrightarrow> \<not> snd (make_affine_transform from_shape to_shape min_scale max_scale sv rv tv rnd))"
  unfolding out_of_bounds_flag by auto

text \<open>With the driver's parameters the draw \<open>11/12\<close> samples the scale \<open>max_scale = 1.1\<close>
  exactly, and the sample is not flagged.\<close>

theorem out_of_bounds_iff_witness:
  "(0.6 :: real) \<le> 1.1
   \<and> sampled_scale 0.6 1.1 1.2 (11 / 12) = 1.1
   \<and> \<bar>trans_fraction 1.2 (1 / 2)\<bar> \<le> 0.80
   \<and> \<not> snd (make_affine_transform (32, 128) (64, 128) 0.6 1.1 1.2 0.9 1.2
            \<lparr>u_scale = 11 / 12, u_roll = 1 / 2, u_pitch = 1 / 2, u_yaw = 1 / 2,
             u_tx = 1 / 2, u_ty = 1 / 2\<rparr>)"
  using out_of_bounds_iff [where from_shape = "(32, 128)" and to_shape = "(64, 128)"
      and min_scale = "0.6" and max_scale = "1.1" and sv = "1.2" and rv = "0.9" and tv = "1.2"
      and rnd = "\<lparr>u_scale = 11 / 12, u_roll = 1 / 2, u_pitch = 1 / 2, u_yaw = 1 / 2,
                  u_tx = 1 / 2, u_ty = 1 / 2\<rparr>"]
  by (simp add: sampled_scale_def uniform_def trans_fraction_def)

text \<open>
  Claim C6, amended. With \<open>scale_variation = 0\<close> and \<open>rotation_variation = 0\<close> the sampled
  scale is exactly \<open>(min_scale + max_scale) / 2\<close> before the canvas-fit rescaling and roll,
  pitch and yaw are zero. When that midpoint lies within the interval from \<open>min_scale\<close> to
  \<open>max_scale\<close>, the flag is true exactly when a translation fraction exceeds 0.80 in
  magnitude; so \<open>out_of_bounds = false\<close> for every draw when in addition
  \<open>translation_variation\<close> is at most 1 in magnitude, as is the default 1.0.
\<close>

theorem zero_variation_midpoint:
  "sampled_scale min_scale max_scale 0 (u_scale rnd) = (min_scale + max_scale) / 2
   \<and> sampled_roll 0 (u_roll rnd) = 0
   \<and> sampled_pitch 0 (u_pitch rnd) = 0
   \<and> sampled_yaw 0 (u_yaw rnd) = 0
   \<and> ((min_scale + max_scale) / 2 \<in> {min_scale .. max_scale} \<longrightarrow>
        (snd (make_affine_transform from_shape to_shape min_scale max_scale 0 0 tv rnd) \<longleftrightarrow>
           0.80 < \<bar>trans_fraction tv (u_tx rnd)\<bar> \<or> 0.80 < \<bar>trans_fraction tv (u_ty rnd)\<bar>))
   \<and> ((min_scale + max_scale) / 2 \<in> {min_scale .. max_scale}
        \<and> \<bar>tv\<bar> \<le> 1 \<and> unit_draws rnd \<longrightarrow>
        \<not> snd (make_affine_transform from_shape to_shape min_scale max_scale 0 0 tv rnd))"
proof -
  have mid: "sampled_scale min_scale max_scale 0 (u_scale rnd) = (min_scale + max_scale) / 2"
    by (simp add: sampled_scale_def uniform_def)
  have angles: "sampled_roll 0 (u_roll rnd) = 0" "sampled_pitch 0 (u_pitch rnd) = 0"
    "sampled_yaw 0 (u_yaw rnd) = 0"
    by (simp_all add: sampled_roll_def sampled_pitch_def sampled_yaw_def)
  have flag: "snd (make_affine_transform from_shape to_shape min_scale max_scale 0 0 tv rnd) \<longleftrightarrow>
           0.80 < \<bar>trans_fraction tv (u_tx rnd)\<bar> \<or> 0.80 < \<bar>trans_fraction tv (u_ty rnd)\<bar>"
    if "(min_scale + max_scale) / 2 \<in> {min_scale .. max_scale}"
    using that unfolding out_of_bounds_flag mid by auto
  have small: "\<bar>trans_fraction tv (u_tx rnd)\<bar> \<le> 1 / 2" "\<bar>trans_fraction tv (u_ty rnd)\<bar> \<le> 1 / 2"
    if "\<bar>tv\<bar> \<le> 1" "unit_draws rnd"
    using trans_fraction_unit_draws [OF that] by simp_all
  from mid angles flag small show ?thesis
    by fastforce
qed

theorem zero_variation_midpoint_witness:
  "((0.6 :: real) + 1.1) / 2 \<in> {0.6 .. 1.1}
   \<and> unit_draws \<lparr>u_scale = 0.3, u_roll = 0.9, u_pitch = 0.1, u_yaw = 0.7,
                  u_tx = 0, u_ty = 0.99\<rparr>
   \<and> sampled_scale 0.6 1.1 0 0.3 = 0.85
   \<and> sampled_roll 0 0.9 = 0
   \<and> \<not> snd (make_affine_transform (32, 128) (64, 128) 0.6 1.1 0 0 1
            \<lparr>u_scale = 0.3, u_roll = 0.9, u_pitch = 0.1, u_yaw = 0.7, u_tx = 0, u_ty = 0.99\<rparr>)"
  using zero_variation_midpoint [where from_shape = "(32, 128)" and to_shape = "(64, 128)"
      and min_scale = "0.6" and max_scale = "1.1" and tv = 1
      and rnd = "\<lparr>u_scale = 0.3, u_roll = 0.9, u_pitch = 0.1, u_yaw = 0.7,
                  u_tx = 0, u_ty = 0.99\<rparr>"]
  by (simp add: unit_draws_def trans_fraction_def power_divide)

text \<open>Claim C6 as stated fails: with \<open>scale_variation = 0\<close>, \<open>rotation_variation = 0\<close> and
  the driver's \<open>translation_variation = 1.2\<close>, the midpoint 0.85 lies within the interval
  from 0.6 to 1.1, yet the draw 0.99 for the horizontal translation sets the flag.\<close>

theorem zero_variation_counterexample:
  "((0.6 :: real) + 1.1) / 2 \<in> {0.6 .. 1.1}
   \<and> unit_draws \<lparr>u_scale = 0.5, u_roll = 0.5, u_pitch = 0.5, u_yaw = 0.5,
                  u_tx = 0.99, u_ty = 0.5\<rparr>
   \<and> snd (make_affine_transform (32, 128) (64, 128) 0.6 1.1 0 0 1.2
          \<lparr>u_scale = 0.5, u_roll = 0.5, u_pitch = 0.5, u_yaw = 0.5, u_tx = 0.99, u_ty = 0.5\<rparr>)"
  using trans_fraction_driver_exceeds
  by (simp add: out_of_bounds_flag unit_draws_def)

text \<open>
  Claim C10. Whenever \<open>translation_variation \<le> 1\<close>, the translation fraction after the
  transform \<open>t' = (2t)\<^sup>5 / 2\<close> has magnitude at most 0.5 in both axes, so the translation
  check (magnitude above 0.80) cannot fire and the flag is determined by the sampled scale
  alone. The check can fire only when \<open>translation_variation > 1\<close>, and it does fire for
  the driver's 1.2. The variation coefficients of the specification are non-negative; the
  bound is stated for the magnitude of \<open>translation_variation\<close>, which covers them.
\<close>

theorem translation_check_unreachable:
  "(\<bar>tv\<bar> \<le> 1 \<and> unit_draws rnd \<longrightarrow>
      \<bar>trans_fraction tv (u_tx rnd)\<bar> \<le> 0.5 \<and> \<bar>trans_fraction tv (u_ty rnd)\<bar> \<le> 0.5
      \<and> (snd (make_affine_transform from_shape to_shape min_scale max_scale sv rv tv rnd) \<longleftrightarrow>
            sampled_scale min_scale max_scale sv (u_scale rnd) \<notin> {min_scale .. max_scale}))
   \<and> (unit_draws rnd
        \<and> (0.80 < \<bar>trans_fraction tv (u_tx rnd)\<bar> \<or> 0.80 < \<bar>trans_fraction tv (u_ty rnd)\<bar>)
       \<longrightarrow> 1 < \<bar>tv\<bar>)
   \<and> (\<exists>u. 0 \<le> u \<and> u < 1 \<and> 0.80 < \<bar>trans_fraction 1.2 u\<bar>)"
proof -
  have small: "\<bar>trans_fraction tv (u_tx rnd)\<bar> \<le> 1 / 2" "\<bar>trans_fraction tv (u_ty rnd)\<bar> \<le> 1 / 2"
    if "\<bar>tv\<bar> \<le> 1" "unit_draws rnd"
    using trans_fraction_unit_draws [OF that] by simp_all
  have flag: "snd (make_affine_transform from_shape to_shape min_scale max_scale sv rv tv rnd) \<longleftrightarrow>
            sampled_scale min_scale max_scale sv (u_scale rnd) \<notin> {min_scale .. max_scale}"
    if "\<bar>tv\<bar> \<le> 1" "unit_draws rnd"
    using small [OF that] unfolding out_of_bounds_flag by auto
  have only: "1 < \<bar>tv\<bar>"
    if "unit_draws rnd"
      "0.80 < \<bar>trans_fraction tv (u_tx rnd)\<bar> \<or> 0.80 < \<bar>trans_fraction tv (u_ty rnd)\<bar>"
  proof (rule ccontr)
    assume "\<not> 1 < \<bar>tv\<bar>"
    then have "\<bar>tv\<bar> \<le> 1" by simp
    from small [OF this that(1)] that(2) show False by auto
  qed
  have fires: "\<exists>u::real. 0 \<le> u \<and> u < 1 \<and> 0.80 < \<bar>trans_fraction 1.2 u\<bar>"
    using trans_fraction_driver_exceeds by (intro exI [of _ "0.99"]) simp
  from small flag only fires show ?thesis
    by (simp only: simp_thms) fastforce
qed

theorem translation_check_unreachable_witness:
  "\<bar>1 :: real\<bar> \<le> 1
   \<and> unit_draws \<lparr>u_scale = 0.99, u_roll = 0.5, u_pitch = 0.5, u_yaw = 0.5, u_tx = 0, u_ty = 0.99\<rparr>
   \<and> \<bar>trans_fraction 1 0\<bar> \<le> 0.5
   \<and> sampled_scale 0.6 1.1 1.2 0.99 \<notin> {0.6 .. 1.1}
   \<and> snd (make_affine_transform (32, 128) (64, 128) 0.6 1.1 1.2 0.9 1
          \<lparr>u_scale = 0.99, u_roll = 0.5, u_pitch = 0.5, u_yaw = 0.5, u_tx = 0, u_ty = 0.99\<rparr>)"
  using translation_check_unreachable [where from_shape = "(32, 128)" and to_shape = "(64, 128)"
      and min_scale = "0.6" and max_scale = "1.1" and sv = "1.2" and rv = "0.9" and tv = 1
      and rnd = "\<lparr>u_scale = 0.99, u_roll = 0.5, u_pitch = 0.5, u_yaw = 0.5,
                  u_tx = 0, u_ty = 0.99\<rparr>"]
  by (simp add: unit_draws_def sampled_scale_def uniform_def)

subsection \<open>The bounding box of the transformed source\<close>

lemma mat_mul_2x2_2x4:
  "mat_mul [[a, b], [c, d]] [[x1, x2, x3, x4], [y1, y2, y3, y4]] =
     [[a * x1 + b * y1, a * x2 + b * y2, a * x3 + b * y3, a * x4 + b * y4],
      [c * x1 + d * y1, c * x2 + d * y2, c * x3 + d * y3, c * x4 + d * y4]]"
  by (simp add: mat_mul_def transpose.simps)

lemma mat_mul_2x3_3x4:
  "mat_mul [[a, b, e], [c, d, f]] [[x1, x2, x3, x4], [y1, y2, y3, y4], [z1, z2, z3, z4]] =
     [[a * x1 + b * y1 + e * z1, a * x2 + b * y2 + e * z2,
       a * x3 + b * y3 + e * z3, a * x4 + b * y4 + e * z4],
      [c * x1 + d * y1 + f * z1, c * x2 + d * y2 + f * z2,
       c * x3 + d * y3 + f * z3, c * x4 + d * y4 + f * z4]]"
  by (simp add: mat_mul_def transpose.simps)

lemma mat_mul_2x2_2x1:
  "mat_mul [[a, b], [c, d]] [[x], [y]] = [[a * x + b * y], [c * x + d * y]]"
  by (simp add: mat_mul_def transpose.simps)

lemma transpose_row2: "transpose [[x, y]] = [[x], [y :: real]]"
  by (simp add: transpose.simps)

lemma block2_rows:
  "block2 (euler_to_mat yaw pitch roll) =
     [[cos roll * cos yaw - sin roll * (sin pitch * sin yaw), - (sin roll * cos pitch)],
      [sin roll * cos yaw + cos roll * (sin pitch * sin yaw), cos roll * cos pitch]]"
  by (simp add: euler_to_mat_entries block2_def)

text \<open>Extremes of the four corner coordinates.\<close>

lemma max_centred:
  fixes p q :: real
  shows "maximum [- p - q, p - q, - p + q, p + q] = \<bar>p\<bar> + \<bar>q\<bar>"
  unfolding maximum.simps fold_simps id_apply o_apply by linarith

lemma min_centred:
  fixes p q :: real
  shows "minimum [- p - q, p - q, - p + q, p + q] = - (\<bar>p\<bar> + \<bar>q\<bar>)"
  unfolding minimum.simps fold_simps id_apply o_apply by linarith

lemma max_shifted:
  fixes p q t :: real
  shows "maximum [t, p + t, q + t, p + q + t] = t + max 0 p + max 0 q"
  unfolding maximum.simps fold_simps id_apply o_apply by linarith

lemma min_shifted:
  fixes p q t :: real
  shows "minimum [t, p + t, q + t, p + q + t] = t + min 0 p + min 0 q"
  unfolding minimum.simps fold_simps id_apply o_apply by linarith

text \<open>The skewed size is \<open>|a| w + |b| h\<close> by \<open>|c| w + |d| h\<close> for the linear block
  \<open>[[a, b], [c, d]]\<close>.\<close>

lemma skewed_size_abs:
  assumes "block2 (euler_to_mat yaw pitch roll) = [[a, b], [c, d]]"
  shows "skewed_size (h, w) yaw pitch roll =
           [[\<bar>a\<bar> * real w + \<bar>b\<bar> * real h], [\<bar>c\<bar> * real w + \<bar>d\<bar> * real h]]"
proof -
  have row: "maximum [a * (- real w * 0.5) + b * (- real h * 0.5),
                      a * (real w * 0.5) + b * (- real h * 0.5),
                      a * (- real w * 0.5) + b * (real h * 0.5),
                      a * (real w * 0.5) + b * (real h * 0.5)]
           - minimum [a * (- real w * 0.5) + b * (- real h * 0.5),
                      a * (real w * 0.5) + b * (- real h * 0.5),
                      a * (- real w * 0.5) + b * (real h * 0.5),
                      a * (real w * 0.5) + b * (real h * 0.5)]
           = \<bar>a\<bar> * real w + \<bar>b\<bar> * real h" for a b :: real
  proof -
    define p where "p = a * (real w * 0.5)"
    define q where "q = b * (real h * 0.5)"
    have pq: "\<bar>p\<bar> = \<bar>a\<bar> * real w * 0.5" "\<bar>q\<bar> = \<bar>b\<bar> * real h * 0.5"
      by (simp_all add: p_def q_def abs_mult)
    have "[a * (- real w * 0.5) + b * (- real h * 0.5),
           a * (real w * 0.5) + b * (- real h * 0.5),
           a * (- real w * 0.5) + b * (real h * 0.5),
           a * (real w * 0.5) + b * (real h * 0.5)] = [- p - q, p - q, - p + q, p + q]"
      by (simp add: p_def q_def)
    then show ?thesis
      by (simp only: max_centred min_centred pq)
  qed
  show ?thesis
    unfolding skewed_size_def Let_def assms
    by (simp only: arr_map_def list.map fst_conv snd_conv mat_mul_2x2_2x4
        max_axis1_def min_axis1_def arr_map2_def zip.simps list.case prod.case row)
qed

lemma bounding_box_affine:
  "bounding_box [[a, b, tx], [c, d, ty]] (h, w) =
     (\<bar>a * real w\<bar> + \<bar>b * real h\<bar>, \<bar>c * real w\<bar> + \<bar>d * real h\<bar>)"
proof -
  have row: "maximum [a * 0 + b * 0 + t * 1, a * real w + b * 0 + t * 1,
                      a * 0 + b * real h + t * 1, a * real w + b * real h + t * 1]
           - minimum [a * 0 + b * 0 + t * 1, a * real w + b * 0 + t * 1,
                      a * 0 + b * real h + t * 1, a * real w + b * real h + t * 1]
           = \<bar>a * real w\<bar> + \<bar>b * real h\<bar>" for a b t :: real
  proof -
    have "[a * 0 + b * 0 + t * 1, a * real w + b * 0 + t * 1,
           a * 0 + b * real h + t * 1, a * real w + b * real h + t * 1]
          = [t, a * real w + t, b * real h + t, a * real w + b * real h + t]"
      by simp
    then show ?thesis
      by (simp only: max_shifted min_shifted)
  qed
  show ?thesis
    unfolding bounding_box_def Let_def
    by (simp only: fst_conv snd_conv mat_mul_2x3_3x4 nth_Cons_0 One_nat_def nth_Cons_Suc row)
qed

text \<open>A finite canvas-fit factor is non-negative and makes the skewed shape fit.\<close>

lemma np_min_fit:
  assumes "np_min (arr_map2 np_divide [[W], [H]] [[sw], [sh]]) = Finite r"
    and "0 \<le> W" "0 \<le> H" "0 \<le> sw" "0 \<le> sh"
  shows "0 \<le> r \<and> r * sw \<le> W \<and> r * sh \<le> H"
proof -
  have m: "np_min2 (np_divide H sh) (np_divide W sw) = Finite r"
    using assms(1) by (simp add: np_min_def arr_map2_def)
  show ?thesis
  proof (cases "sw = 0")
    case sw0: True
    show ?thesis
    proof (cases "sh = 0")
      case True
      with sw0 m assms show ?thesis
        by (auto simp add: np_divide_def split: if_splits)
    next
      case False
      with sw0 m assms show ?thesis
        by (auto simp add: np_divide_def split: if_splits)
    qed
  next
    case swn: False
    then have swp: "0 < sw" using assms by simp
    show ?thesis
    proof (cases "sh = 0")
      case True
      with swn m assms show ?thesis
        by (auto simp add: np_divide_def split: if_splits)
    next
      case False
      then have shp: "0 < sh" using assms by simp
      from swn False m have r: "r = min (H / sh) (W / sw)"
        by (simp add: np_divide_def)
      have "r \<le> W / sw" "r \<le> H / sh"
        by (simp_all add: r)
      then have "r * sw \<le> W" "r * sh \<le> H"
        using swp shp by (simp_all add: pos_le_divide_eq)
      moreover have "0 \<le> r"
        using assms swp shp by (simp add: r)
      ultimately show ?thesis by simp
    qed
  qed
qed

text \<open>The shape of a returned matrix: the linear block times the rescaled scale, and a
  translation column.\<close>

lemma make_affine_transform_Some:
  assumes res: "make_affine_transform (h, w) (H, W) mn mx sv rv tv rnd = (Some M, oob)"
    and blk: "block2 (euler_to_mat (sampled_yaw rv (u_yaw rnd)) (sampled_pitch rv (u_pitch rnd))
                 (sampled_roll rv (u_roll rnd))) = [[a, b], [c, d]]"
  shows "\<exists>r tx ty.
           np_min (arr_map2 np_divide [[real W], [real H]]
                     [[\<bar>a\<bar> * real w + \<bar>b\<bar> * real h], [\<bar>c\<bar> * real w + \<bar>d\<bar> * real h]]) = Finite r
         \<and> M = [[a * (sampled_scale mn mx sv (u_scale rnd) * r),
                  b * (sampled_scale mn mx sv (u_scale rnd) * r), tx],
                 [c * (sampled_scale mn mx sv (u_scale rnd) * r),
                  d * (sampled_scale mn mx sv (u_scale rnd) * r), ty]]"
proof -
  let ?sk = "[[\<bar>a\<bar> * real w + \<bar>b\<bar> * real h], [\<bar>c\<bar> * real w + \<bar>d\<bar> * real h]]"
  let ?q = "np_min (arr_map2 np_divide [[real W], [real H]] ?sk)"
  have sk: "skewed_size (h, w) (sampled_yaw rv (u_yaw rnd)) (sampled_pitch rv (u_pitch rnd))
               (sampled_roll rv (u_roll rnd)) = ?sk"
    by (rule skewed_size_abs [OF blk])
  from res obtain r where r: "?q = Finite r"
    unfolding make_affine_transform_def Let_def sk fst_conv snd_conv transpose_row2
    by (cases ?q) simp_all
  from res have "\<exists>tx ty. M = [[a * (sampled_scale mn mx sv (u_scale rnd) * r),
                  b * (sampled_scale mn mx sv (u_scale rnd) * r), tx],
                 [c * (sampled_scale mn mx sv (u_scale rnd) * r),
                  d * (sampled_scale mn mx sv (u_scale rnd) * r), ty]]"
    unfolding make_affine_transform_def Let_def sk fst_conv snd_conv transpose_row2 r blk
    by (auto simp add: arr_map_def arr_map2_def hstack2_def mat_mul_2x2_2x1)
  with r show ?thesis by blast
qed

text \<open>Evaluation of \<open>make_affine_transform\<close> at an input without rotation.\<close>

lemma skewed_size_unrotated: "skewed_size (h, w) 0 0 0 = [[real w], [real h]]"
proof -
  have "block2 (euler_to_mat 0 0 0) = [[1, 0], [0, 1]]"
    by (simp add: block2_rows)
  from skewed_size_abs [OF this] show ?thesis by simp
qed

lemmas make_affine_transform_eval =
  make_affine_transform_def Let_def sampled_scale_def sampled_roll_def sampled_pitch_def
  sampled_yaw_def uniform_def skewed_size_unrotated block2_rows arr_map_def
  arr_map2_def mat_mul_2x2_2x1 transpose_row2 np_min_def
  np_divide_def trans_fraction_def arr_any_def hstack2_def

lemma driver_sample_large:
  "make_affine_transform (32, 128) (64, 128) 0.6 1.1 1.2 0.9 1.2
     \<lparr>u_scale = 0.9, u_roll = 0.5, u_pitch = 0.5, u_yaw = 0.5, u_tx = 0.5, u_ty = 0.5\<rparr>
   = (Some [[109 / 100, 0, - (144 / 25)], [0, 109 / 100, 364 / 25]], False)"
  by (simp add: make_affine_transform_eval)

lemma unit_scale_sample:
  "make_affine_transform (32, 128) (64, 128) 0.5 1 1 1 1
     \<lparr>u_scale = 0.5, u_roll = 0.5, u_pitch = 0.5, u_yaw = 0.5, u_tx = 0.5, u_ty = 0.5\<rparr>
   = (Some [[3 / 4, 0, 16], [0, 3 / 4, 20]], False)"
  by (simp add: make_affine_transform_eval)

text \<open>
  Claim C1, amended. For every call of \<open>make_affine_transform\<close> with \<open>min_scale \<ge> 0\<close> that
  returns a (finite) transform and \<open>out_of_bounds = false\<close>, the axis-aligned bounding box
  of the images of the four corners of the source shape has width at most
  \<open>scale \<cdot> target width\<close> and height at most \<open>scale \<cdot> target height\<close>, where \<open>scale\<close> is the
  sampled scale, itself at most \<open>max_scale\<close>. The box therefore fits the size of the target
  canvas whenever \<open>max_scale \<le> 1\<close>.
\<close>

theorem bounding_box_within_scaled_canvas:
  assumes res: "make_affine_transform (h, w) (H, W) min_scale max_scale sv rv tv rnd
                  = (Some M, False)"
    and pos: "0 \<le> min_scale"
  shows "fst (bounding_box M (h, w)) \<le> sampled_scale min_scale max_scale sv (u_scale rnd) * real W
       \<and> snd (bounding_box M (h, w)) \<le> sampled_scale min_scale max_scale sv (u_scale rnd) * real H
       \<and> sampled_scale min_scale max_scale sv (u_scale rnd) \<le> max_scale
       \<and> (max_scale \<le> 1 \<longrightarrow>
            fst (bounding_box M (h, w)) \<le> real W \<and> snd (bounding_box M (h, w)) \<le> real H)"
proof -
  define s where "s = sampled_scale min_scale max_scale sv (u_scale rnd)"
  obtain a b c d where blk:
    "block2 (euler_to_mat (sampled_yaw rv (u_yaw rnd)) (sampled_pitch rv (u_pitch rnd))
        (sampled_roll rv (u_roll rnd))) = [[a, b], [c, d]]"
    using block2_rows by blast
  define sw where "sw = \<bar>a\<bar> * real w + \<bar>b\<bar> * real h"
  define sh where "sh = \<bar>c\<bar> * real w + \<bar>d\<bar> * real h"
  from make_affine_transform_Some [OF res blk]
  obtain r tx ty where
    r: "np_min (arr_map2 np_divide [[real W], [real H]] [[sw], [sh]]) = Finite r"
    and M: "M = [[a * (s * r), b * (s * r), tx], [c * (s * r), d * (s * r), ty]]"
    unfolding s_def sw_def sh_def by blast
  have nonneg: "0 \<le> sw" "0 \<le> sh"
    by (simp_all add: sw_def sh_def)
  from np_min_fit [OF r _ _ nonneg]
  have fit: "0 \<le> r" "r * sw \<le> real W" "r * sh \<le> real H" by simp_all
  have "\<not> snd (make_affine_transform (h, w) (H, W) min_scale max_scale sv rv tv rnd)"
    by (simp add: res)
  then have s_range: "min_scale \<le> s" "s \<le> max_scale"
    unfolding out_of_bounds_flag s_def by simp_all
  with pos have s0: "0 \<le> s" by simp
  have bw: "fst (bounding_box M (h, w)) = s * (r * sw)"
    unfolding M bounding_box_affine fst_conv sw_def
    using s0 fit(1) by (simp add: abs_mult algebra_simps)
  have bh: "snd (bounding_box M (h, w)) = s * (r * sh)"
    unfolding M bounding_box_affine snd_conv sh_def
    using s0 fit(1) by (simp add: abs_mult algebra_simps)
  have w1: "fst (bounding_box M (h, w)) \<le> s * real W"
    unfolding bw using s0 fit(2) by (rule mult_left_mono [rotated])
  have h1: "snd (bounding_box M (h, w)) \<le> s * real H"
    unfolding bh using s0 fit(3) by (rule mult_left_mono [rotated])
  have "s * real W \<le> 1 * real W" "s * real H \<le> 1 * real H" if "max_scale \<le> 1"
  proof -
    from that s_range have "s \<le> 1" by simp
    then show "s * real W \<le> 1 * real W" "s * real H \<le> 1 * real H"
      by (rule mult_right_mono, simp)+
  qed
  with w1 h1 s_range show ?thesis
    unfolding s_def [symmetric] by auto
qed

theorem bounding_box_within_scaled_canvas_witness:
  "make_affine_transform (32, 128) (64, 128) 0.5 1 1 1 1
     \<lparr>u_scale = 0.5, u_roll = 0.5, u_pitch = 0.5, u_yaw = 0.5, u_tx = 0.5, u_ty = 0.5\<rparr>
     = (Some [[3 / 4, 0, 16], [0, 3 / 4, 20]], False)
   \<and> (0 :: real) \<le> 0.5
   \<and> fst (bounding_box [[3 / 4, 0, 16], [0, 3 / 4, 20]] (32, 128)) \<le> 128
   \<and> snd (bounding_box [[3 / 4, 0, 16], [0, 3 / 4, 20]] (32, 128)) \<le> 64"
proof -
  have pos: "(0 :: real) \<le> 0.5" by simp
  from bounding_box_within_scaled_canvas [OF unit_scale_sample pos] unit_scale_sample pos
  show ?thesis by simp
qed

text \<open>Claim C1 as stated fails: with the driver's parameters (\<open>max_scale = 1.1\<close>) the draw
  0.9 samples the scale 1.09, which is not flagged; the transformed corners of a 128 by 32
  plate then span a width of 139.52 on a canvas of width 128.\<close>

theorem bounding_box_counterexample:
  "make_affine_transform (32, 128) (64, 128) 0.6 1.1 1.2 0.9 1.2
     \<lparr>u_scale = 0.9, u_roll = 0.5, u_pitch = 0.5, u_yaw = 0.5, u_tx = 0.5, u_ty = 0.5\<rparr>
     = (Some [[109 / 100, 0, - (144 / 25)], [0, 109 / 100, 364 / 25]], False)
   \<and> fst (bounding_box [[109 / 100, 0, - (144 / 25)], [0, 109 / 100, 364 / 25]] (32, 128))
       = 3488 / 25
   \<and> real 128 + 11 < fst (bounding_box [[109 / 100, 0, - (144 / 25)], [0, 109 / 100, 364 / 25]]
                            (32, 128))"
  using driver_sample_large by (simp add: bounding_box_affine)

subsection \<open>The plate code\<close>

declare generate_code_loop.simps [simp del]

lemma random_choice_nonempty:
  "seq \<noteq> [] \<Longrightarrow> random_choice seq (r # rest) = Some (Inr (seq ! (r mod length seq)), rest)"
  by (simp add: random_choice_def)

lemma draw_code_six:
  assumes "LETTERS \<noteq> []" "DIGITS \<noteq> []"
  shows "draw_code LETTERS DIGITS (r1 # r2 # r3 # r4 # r5 # r6 # rest) =
     Some (Inr ([LETTERS ! (r1 mod length LETTERS), LETTERS ! (r2 mod length LETTERS),
                 LETTERS ! (r3 mod length LETTERS)] @ '' '' @
                [DIGITS ! (r4 mod length DIGITS), DIGITS ! (r5 mod length DIGITS),
                 DIGITS ! (r6 mod length DIGITS)]), rest)"
  using assms by (simp add: draw_code_def then_draw_def random_choice_nonempty)

lemma draw_code_format:
  assumes "draw_code LETTERS DIGITS rs = Some (Inr c, rest)"
  shows "plate_format LETTERS DIGITS c"
  using draw_code_Inr [OF assms]
  by (auto simp add: plate_format_def)

text \<open>The exception of a choice from an empty alphabet leaves the draws consumed by the
  choices before it: none for the letters, three for the digits.\<close>

lemma draw_code_no_letters: "draw_code [] DIGITS rs = Some (Inl IndexError, rs)"
  by (simp add: draw_code_def then_draw_def random_choice_def)

lemma draw_code_no_digits:
  "LETTERS \<noteq> [] \<Longrightarrow>
     draw_code LETTERS [] (r1 # r2 # r3 # rest) = Some (Inl IndexError, rest)"
  by (simp add: draw_code_def then_draw_def random_choice_def)

text \<open>The loop returns only a value on which its condition is false.\<close>

lemma loop_exit:
  "generate_code_loop LETTERS DIGITS country code rs = Some (Inr result, rest)
     \<Longrightarrow> loop_condition country result = Inr False"
proof (induction LETTERS DIGITS country code rs rule: generate_code_loop.induct)
  case (1 LETTERS DIGITS country code rs)
  from "1.prems" show ?case
    by (subst (asm) generate_code_loop.simps)
       (auto split: sum.splits bool.splits option.splits prod.splits dest: "1.IH")
qed

lemma loop_condition_False:
  assumes "loop_condition country result = Inr False"
  shows "\<exists>code banned. result = Some code \<and> code \<noteq> []
           \<and> banned_combinations country = Some banned
           \<and> (\<forall>bad \<in> set banned. \<not> sublist bad code)"
  using assms
  by (auto simp add: loop_condition_def list_ex_iff split: option.splits if_splits)

text \<open>The value of \<open>code\<close> is \<open>None\<close> or a well-formed plate code throughout the loop.\<close>

lemma loop_format:
  "generate_code_loop LETTERS DIGITS country code rs = Some (Inr result, rest)
     \<Longrightarrow> code = None \<or> (\<exists>c. code = Some c \<and> plate_format LETTERS DIGITS c)
     \<Longrightarrow> \<exists>c. result = Some c \<and> plate_format LETTERS DIGITS c"
proof (induction LETTERS DIGITS country code rs rule: generate_code_loop.induct)
  case (1 LETTERS DIGITS country code rs)
  show ?case
  proof (cases "loop_condition country code")
    case (Inl e)
    with "1.prems"(1) show ?thesis
      by (subst (asm) generate_code_loop.simps) simp
  next
    case (Inr b)
    show ?thesis
    proof (cases b)
      case False
      with Inr "1.prems"(1) have "result = code"
        by (subst (asm) generate_code_loop.simps) simp
      moreover from Inr False have "code \<noteq> None"
        by (auto simp add: loop_condition_def split: option.splits)
      ultimately show ?thesis
        using "1.prems"(2) by auto
    next
      case True
      with Inr "1.prems"(1) obtain rest' c
        where d: "draw_code LETTERS DIGITS rs = Some (Inr c, rest')"
          and rec: "generate_code_loop LETTERS DIGITS country (Some c) rest'
                      = Some (Inr result, rest)"
        by (subst (asm) generate_code_loop.simps)
           (auto split: option.splits sum.splits prod.splits)
      from draw_code_format [OF d] have fmt: "Some c = None \<or>
          (\<exists>c'. Some c = Some c' \<and> plate_format LETTERS DIGITS c')"
        by simp
      from True have b: "b = True" by simp
      show ?thesis
        by (rule "1.IH" [OF Inr b d refl refl rec fmt])
    qed
  qed
qed

text \<open>With the empty denylist of \<open>country = None\<close> the first code drawn is returned.\<close>

lemma first_draw_accepted:
  assumes "LETTERS \<noteq> []" "DIGITS \<noteq> []"
  shows "generate_code LETTERS DIGITS None (r1 # r2 # r3 # r4 # r5 # r6 # rest) =
     Some (Inr (Some ([LETTERS ! (r1 mod length LETTERS), LETTERS ! (r2 mod length LETTERS),
                       LETTERS ! (r3 mod length LETTERS)] @ '' '' @
                      [DIGITS ! (r4 mod length DIGITS), DIGITS ! (r5 mod length DIGITS),
                       DIGITS ! (r6 mod length DIGITS)])), rest)"
  using assms
  apply (simp add: generate_code_def)
  apply (subst generate_code_loop.simps)
  apply (simp add: loop_condition_def draw_code_six)
  apply (subst generate_code_loop.simps)
  apply (simp add: loop_condition_def banned_combinations_def)
  done

text \<open>Whatever the loop returns holds no entry of the list that \<open>banned_combinations\<close>
  holds for the locale.\<close>

lemma generate_code_avoids_held_entries:
  assumes "generate_code LETTERS DIGITS country rs = Some (Inr result, rest)"
    and "banned_combinations country = Some banned"
  shows "\<exists>code. result = Some code \<and> (\<forall>bad \<in> set banned. \<not> sublist bad code)"
proof -
  from assms(1) have "loop_condition country result = Inr False"
    unfolding generate_code_def by (rule loop_exit)
  from loop_condition_False [OF this] assms(2) show ?thesis
    by auto
qed

text \<open>A run for the locale \<open>"se"\<close>: the first code drawn, \<open>APA 123\<close>, is rejected, the
  second, \<open>BCD 456\<close>, is returned, and one draw is left.\<close>

lemma se_run:
  "generate_code ''ABCDEFGHIJKLMNOPQRSTUVWXYZ'' ''0123456789'' (Some ''se'')
     [0, 15, 0, 1, 2, 3, 1, 2, 3, 4, 5, 6, 7] = Some (Inr (Some ''BCD 456''), [7])"
  apply (simp add: generate_code_def)
  apply (subst generate_code_loop.simps)
  apply (simp add: loop_condition_def draw_code_six)
  apply (subst generate_code_loop.simps)
  apply (simp add: loop_condition_def banned_combinations_def banned_se_def sublist_code
      draw_code_six)
  apply (subst generate_code_loop.simps)
  apply (simp add: loop_condition_def banned_combinations_def banned_se_def sublist_code)
  done

text \<open>The first code drawn is returned when it holds no entry of the list.\<close>

lemma se_first_draw:
  assumes "\<not> list_ex (\<lambda>bad. sublist bad
              ([''ABCDEFGHIJKLMNOPQRSTUVWXYZ'' ! (r1 mod 26), ''ABCDEFGHIJKLMNOPQRSTUVWXYZ'' ! (r2 mod 26),
                ''ABCDEFGHIJKLMNOPQRSTUVWXYZ'' ! (r3 mod 26)] @ '' '' @
               [''0123456789'' ! (r4 mod 10), ''0123456789'' ! (r5 mod 10),
                ''0123456789'' ! (r6 mod 10)])) banned_se"
  shows "generate_code ''ABCDEFGHIJKLMNOPQRSTUVWXYZ'' ''0123456789'' (Some ''se'')
           (r1 # r2 # r3 # r4 # r5 # r6 # rest) =
         Some (Inr (Some ([''ABCDEFGHIJKLMNOPQRSTUVWXYZ'' ! (r1 mod 26),
                           ''ABCDEFGHIJKLMNOPQRSTUVWXYZ'' ! (r2 mod 26),
                           ''ABCDEFGHIJKLMNOPQRSTUVWXYZ'' ! (r3 mod 26)] @ '' '' @
                          [''0123456789'' ! (r4 mod 10), ''0123456789'' ! (r5 mod 10),
                           ''0123456789'' ! (r6 mod 10)])), rest)"
  using assms
  apply (simp only: generate_code_def)
  apply (subst generate_code_loop.simps)
  apply (simp add: loop_condition_def draw_code_six)
  apply (subst generate_code_loop.simps)
  apply (simp add: loop_condition_def banned_combinations_def)
  done

text \<open>
  Claim C5: the code breaks it. The list of the source for the locale \<open>"se"\<close> spells out
  the literals \<open>"LSD"\<close>, \<open>"LUS"\<close>, \<open>"NRP"\<close> and \<open>"NSF"\<close>, but a comma is missing in each pair, so
  the list the program holds has \<open>"LSDLUS"\<close> and \<open>"NRPNSF"\<close> in their place and none of the
  four. For the locale \<open>"se"\<close> \<open>generate_code\<close> returns \<open>LSD 123\<close>, \<open>LUS 123\<close>, \<open>NRP 123\<close> and
  \<open>NSF 123\<close>, each of which contains the substring it was meant to exclude.
\<close>

theorem generate_code_returns_banned:
  "''LSDLUS'' \<in> set banned_se \<and> ''NRPNSF'' \<in> set banned_se
   \<and> ''LSD'' \<notin> set banned_se \<and> ''LUS'' \<notin> set banned_se
   \<and> ''NRP'' \<notin> set banned_se \<and> ''NSF'' \<notin> set banned_se
   \<and> generate_code ''ABCDEFGHIJKLMNOPQRSTUVWXYZ'' ''0123456789'' (Some ''se'')
        [11, 18, 3, 1, 2, 3] = Some (Inr (Some ''LSD 123''), [])
   \<and> sublist ''LSD'' ''LSD 123''
   \<and> generate_code ''ABCDEFGHIJKLMNOPQRSTUVWXYZ'' ''0123456789'' (Some ''se'')
        [11, 20, 18, 1, 2, 3] = Some (Inr (Some ''LUS 123''), [])
   \<and> sublist ''LUS'' ''LUS 123''
   \<and> generate_code ''ABCDEFGHIJKLMNOPQRSTUVWXYZ'' ''0123456789'' (Some ''se'')
        [13, 17, 15, 1, 2, 3] = Some (Inr (Some ''NRP 123''), [])
   \<and> sublist ''NRP'' ''NRP 123''
   \<and> generate_code ''ABCDEFGHIJKLMNOPQRSTUVWXYZ'' ''0123456789'' (Some ''se'')
        [13, 18, 5, 1, 2, 3] = Some (Inr (Some ''NSF 123''), [])
   \<and> sublist ''NSF'' ''NSF 123''"
proof -
  have held: "''LSDLUS'' \<in> set banned_se" "''NRPNSF'' \<in> set banned_se"
    "''LSD'' \<notin> set banned_se" "''LUS'' \<notin> set banned_se"
    "''NRP'' \<notin> set banned_se" "''NSF'' \<notin> set banned_se"
    by (simp_all add: banned_se_def)
  have lsd: "generate_code ''ABCDEFGHIJKLMNOPQRSTUVWXYZ'' ''0123456789'' (Some ''se'')
        [11, 18, 3, 1, 2, 3] = Some (Inr (Some ''LSD 123''), [])"
    using se_first_draw [of 11 18 3 1 2 3 "[]"] by (simp add: banned_se_def sublist_code)
  have lus: "generate_code ''ABCDEFGHIJKLMNOPQRSTUVWXYZ'' ''0123456789'' (Some ''se'')
        [11, 20, 18, 1, 2, 3] = Some (Inr (Some ''LUS 123''), [])"
    using se_first_draw [of 11 20 18 1 2 3 "[]"] by (simp add: banned_se_def sublist_code)
  have nrp: "generate_code ''ABCDEFGHIJKLMNOPQRSTUVWXYZ'' ''0123456789'' (Some ''se'')
        [13, 17, 15, 1, 2, 3] = Some (Inr (Some ''NRP 123''), [])"
    using se_first_draw [of 13 17 15 1 2 3 "[]"] by (simp add: banned_se_def sublist_code)
  have nsf: "generate_code ''ABCDEFGHIJKLMNOPQRSTUVWXYZ'' ''0123456789'' (Some ''se'')
        [13, 18, 5, 1, 2, 3] = Some (Inr (Some ''NSF 123''), [])"
    using se_first_draw [of 13 18 5 1 2 3 "[]"] by (simp add: banned_se_def sublist_code)
  have subs: "sublist ''LSD'' ''LSD 123''" "sublist ''LUS'' ''LUS 123''"
    "sublist ''NRP'' ''NRP 123''" "sublist ''NSF'' ''NSF 123''"
    by (simp_all add: sublist_code)
  from held lsd lus nrp nsf subs show ?thesis
    by (intro conjI)
qed

text \<open>
  Claim C7. Every string \<open>generate_code\<close> returns consists of exactly three letters, one
  space and three digits, the characters taken from the configured alphabets. Each
  character is the element of its alphabet at the index of its own draw, the alphabet
  being the same for every draw (drawing with replacement). With \<open>country = None\<close> the
  first code drawn is accepted: the loop consumes the six draws of one iteration and
  returns.
\<close>

theorem generate_code_format:
  "(generate_code LETTERS DIGITS country rs = Some (Inr result, rest) \<longrightarrow>
      (\<exists>code. result = Some code \<and> plate_format LETTERS DIGITS code))
   \<and> (LETTERS \<noteq> [] \<and> DIGITS \<noteq> [] \<longrightarrow>
        generate_code LETTERS DIGITS None (la # lb # lc # da # db # dc # rest') =
          Some (Inr (Some ([LETTERS ! (la mod length LETTERS), LETTERS ! (lb mod length LETTERS),
                            LETTERS ! (lc mod length LETTERS)] @ '' '' @
                           [DIGITS ! (da mod length DIGITS), DIGITS ! (db mod length DIGITS),
                            DIGITS ! (dc mod length DIGITS)])), rest'))"
proof -
  have "\<exists>code. result = Some code \<and> plate_format LETTERS DIGITS code"
    if "generate_code LETTERS DIGITS country rs = Some (Inr result, rest)"
    using that unfolding generate_code_def by (rule loop_format) simp
  with first_draw_accepted show ?thesis
    by blast
qed

theorem generate_code_format_witness:
  "generate_code ''ABCDEFGHIJKLMNOPQRSTUVWXYZ'' ''0123456789'' None [25, 0, 27, 9, 19, 5, 4]
     = Some (Inr (Some ''ZAB 995''), [4])
   \<and> plate_format ''ABCDEFGHIJKLMNOPQRSTUVWXYZ'' ''0123456789'' ''ZAB 995''"
  using generate_code_format [where LETTERS = "''ABCDEFGHIJKLMNOPQRSTUVWXYZ''"
      and DIGITS = "''0123456789''" and country = None and rs = "[25, 0, 27, 9, 19, 5, 4]"
      and result = "Some ''ZAB 995''" and rest = "[4]"
      and la = 25 and lb = 0 and lc = 27 and da = 9 and db = 19 and dc = 5 and rest' = "[4]"]
  by simp

subsection \<open>Compositing\<close>

lemma blend_row_zero:
  "length p = length b \<Longrightarrow>
     map2 (+) (map2 (*) (map f p) (map (\<lambda>_. 0 :: real) b))
              (map2 (*) (map g b) (map (\<lambda>m. 1.0 - m) (map (\<lambda>_. 0) b))) = map g b"
  by (induction p b rule: list_induct2) simp_all

lemma blend_row_one:
  "length p = length b \<Longrightarrow>
     map2 (+) (map2 (*) (map f p) (map (\<lambda>_. 1 :: real) b))
              (map2 (*) (map g b) (map (\<lambda>m. 1.0 - m) (map (\<lambda>_. 1) b))) = map f p"
  by (induction p b rule: list_induct2) simp_all

lemma composite_zero_mask:
  "map length plate = map length bg \<Longrightarrow>
     composite plate (arr_map (\<lambda>_. 0) bg) bg = as_float bg"
proof (induction plate arbitrary: bg)
  case Nil
  then show ?case by (simp add: composite_def as_float_def arr_map_def arr_map2_def)
next
  case (Cons p plate)
  then obtain b bg' where bg: "bg = b # bg'" by (cases bg) auto
  with Cons.prems have len: "length p = length b" "map length plate = map length bg'"
    by simp_all
  from Cons.IH [OF len(2)] blend_row_zero [OF len(1)] show ?case
    by (simp add: bg composite_def as_float_def arr_map_def arr_map2_def)
qed

lemma composite_one_mask:
  "map length plate = map length bg \<Longrightarrow>
     composite plate (arr_map (\<lambda>_. 1) bg) bg = as_float plate"
proof (induction plate arbitrary: bg)
  case Nil
  then show ?case by (simp add: composite_def as_float_def arr_map_def arr_map2_def)
next
  case (Cons p plate)
  then obtain b bg' where bg: "bg = b # bg'" by (cases bg) auto
  with Cons.prems have len: "length p = length b" "map length plate = map length bg'"
    by simp_all
  from Cons.IH [OF len(2)] blend_row_one [OF len(1)] show ?case
    by (simp add: bg composite_def as_float_def arr_map_def arr_map2_def)
qed

lemma composite_pixel:
  assumes "map length plate = map length bg" "map length plate_mask = map length bg"
    and "i < length bg" "j < length (bg ! i)"
  shows "composite plate plate_mask bg ! i ! j =
           real (unat (plate ! i ! j)) * (plate_mask ! i ! j)
           + real (unat (bg ! i ! j)) * (1 - plate_mask ! i ! j)"
proof -
  from assms(1,2) have rows: "length plate = length bg" "length plate_mask = length bg"
    by (metis length_map)+
  from assms(1,3) rows have "length (plate ! i) = length (bg ! i)"
    by (metis nth_map)
  moreover from assms(2,3) rows have "length (plate_mask ! i) = length (bg ! i)"
    by (metis nth_map)
  ultimately show ?thesis
    using assms(3,4) rows
    by (simp add: composite_def as_float_def arr_map_def arr_map2_def)
qed

text \<open>
  Claim C8. On a warped plate, a mask and a background of one shape, the composite before
  the resize is, pixel by pixel, \<open>plate \<cdot> mask + background \<cdot> (1 - mask)\<close>. Hence with an
  all-zero mask it is the background unchanged, and with an all-ones mask it is the warped
  plate unchanged.
\<close>

theorem composite_alpha_blend:
  assumes "map length plate = map length bg"
    and "map length plate_mask = map length bg"
  shows "(\<forall>i j. i < length bg \<and> j < length (bg ! i) \<longrightarrow>
            composite plate plate_mask bg ! i ! j =
              real (unat (plate ! i ! j)) * (plate_mask ! i ! j)
              + real (unat (bg ! i ! j)) * (1 - plate_mask ! i ! j))
       \<and> composite plate (arr_map (\<lambda>_. 0) bg) bg = as_float bg
       \<and> composite plate (arr_map (\<lambda>_. 1) bg) bg = as_float plate"
  using assms
  by (simp add: composite_pixel composite_zero_mask composite_one_mask)

theorem composite_alpha_blend_witness:
  "map length [[10, 20 :: 8 word]] = map length [[200, 100 :: 8 word]]
   \<and> map length [[1 / 4, 1 :: real]] = map length [[200, 100 :: 8 word]]
   \<and> composite [[10, 20]] [[1 / 4, 1]] [[200, 100]] ! 0 ! 0 = 10 * (1 / 4) + 200 * (1 - 1 / 4)
   \<and> composite [[10, 20]] [[0, 0]] [[200, 100]] = [[200, 100]]
   \<and> composite [[10, 20]] [[1, 1]] [[200, 100]] = [[10, 20]]"
  using composite_alpha_blend [where plate = "[[10, 20]]" and bg = "[[200, 100]]"
      and plate_mask = "[[1 / 4, 1]]"]
  by (simp add: arr_map_def as_float_def)

subsection \<open>The label of a sample\<close>

text \<open>
  Claim C9. Whenever the background and the plate have been produced, \<open>generate_im\<close>
  returns a triple (image, code, validity) whose validity is the negation of the
  \<open>out_of_bounds\<close> flag returned by \<open>make_affine_transform\<close>: the flag, whatever its
  value, does not prevent or abort the generation of the sample; it only determines the
  label.
\<close>

theorem generate_im_validity:
  "\<exists>out. generate_im cv (Some bg) (Some (plate, code)) rnd =
     Some (out, code,
           \<not> snd (make_affine_transform (shape plate) (shape bg) 0.6 1.1 1.2 0.9 1.2 rnd))"
  by (simp add: generate_im_def Let_def split: prod.splits)

end
